theory Spec2Isabelle
  imports Main "HOL-Library.AList" "HOL-Library.Sublist"
begin

section \<open>The service worker of the site (sw.js)\<close>

text \<open>
  The worker is event driven: every handler is modelled as a function from the event, the
  cache storage and the network (the two things the browser gives the worker) to what the
  handler hands back to the browser: the settled promise it gave to \<open>waitUntil\<close> or
  \<open>respondWith\<close>, the signals it raised, and the cache storage afterwards.
  A promise is modelled by its settlement: \<open>Inl e\<close> is a rejection with \<open>e\<close>,
  \<open>Inr v\<close> a fulfilment with \<open>v\<close>. Console output other than \<open>console.error\<close> is
  not modelled.
\<close>

subsection \<open>Constants\<close>

definition CACHE_NAME :: string where
  "CACHE_NAME = ''bastelglueck-v1''"

definition STATIC_CACHE :: string where
  "STATIC_CACHE = ''bastelglueck-static-v1''"

definition DYNAMIC_CACHE :: string where
  "DYNAMIC_CACHE = ''bastelglueck-dynamic-v1''"

definition STATIC_FILES :: "string list" where
  "STATIC_FILES =
     [''/'', ''/index.html'', ''/css/styles.css'', ''/js/main.js'', ''/manifest.json'',
      ''/files/DSC_5600.jpeg'']"

subsection \<open>Requests, responses, URLs\<close>

text \<open>
  The ways a promise rejects in this worker, kept apart by their cause: \<open>fetch\<close>
  found no network; \<open>cache.addAll\<close> or \<open>cache.put\<close> refused a response (its
  status, or its \<open>Vary\<close> header); \<open>cache.addAll\<close> was given the same URL twice;
  a property was read from \<open>null\<close> or \<open>undefined\<close>. In the browser the first,
  second and last are \<open>TypeError\<close> objects, the third an \<open>InvalidStateError\<close>.
\<close>

datatype error = NetworkError | BadResponse | InvalidState | NullProperty

datatype response_type = Basic | Cors | Default | ErrorType | Opaque | OpaqueRedirect

text \<open>
  \<open>redirected\<close> is the flag of the same name: the response was reached by following a
  redirect. \<open>res_headers\<close> has lower-case names, each once, with the value
  \<open>Headers.get\<close> returns for it.
\<close>

record response =
  status :: nat
  rtype :: response_type
  redirected :: bool
  res_headers :: "(string \<times> string) list"
  body :: string

text \<open>\<open>Response.ok\<close>: the status is in the range 200 to 299.\<close>

definition response_ok :: "response \<Rightarrow> bool" where
  "response_ok r = (200 \<le> status r \<and> status r \<le> 299)"

text \<open>
  A URL with the components its origin is made of. \<open>port\<close> is empty for the default port
  of the scheme; \<open>path\<close> starts with a slash and carries the query. \<open>href\<close> is the string
  the worker reads as \<open>request.url\<close>, \<open>origin\<close> the one it reads as
  \<open>self.location.origin\<close>.
\<close>

record url =
  scheme :: string
  host :: string
  port :: string
  path :: string

definition origin :: "url \<Rightarrow> string" where
  "origin u = scheme u @ ''://'' @ host u @ (if port u = [] then [] else '':'' @ port u)"

definition href :: "url \<Rightarrow> string" where
  "href u = origin u @ path u"

text \<open>
  A root-relative path such as \<open>'/index.html'\<close>, handed to the Cache API by the worker,
  is resolved against the worker's own location.
\<close>

definition resolve :: "url \<Rightarrow> string \<Rightarrow> string" where
  "resolve loc p = origin loc @ p"

text \<open>Header names are lower case in \<open>req_headers\<close>, as \<open>Headers\<close> stores them.\<close>

record request =
  req_method :: string
  req_url :: url
  req_headers :: "(string \<times> string) list"

definition headers_get :: "(string \<times> string) list \<Rightarrow> string \<Rightarrow> string option" where
  "headers_get hs name = map_of hs name"

text \<open>\<open>String.prototype.includes\<close> and \<open>String.prototype.startsWith\<close>.\<close>

fun str_includes :: "string \<Rightarrow> string \<Rightarrow> bool" where
  "str_includes [] sub = (sub = [])"
| "str_includes (c # cs) sub = (prefix sub (c # cs) \<or> str_includes cs sub)"

definition startsWith :: "string \<Rightarrow> string \<Rightarrow> bool" where
  "startsWith s p = prefix p s"

text \<open>
  The field values of a \<open>Vary\<close> header, as the Cache API reads them: the value split
  at commas, each piece with the white space at its ends removed. \<open>vary_star\<close>: one of
  them is \<open>*\<close>.
\<close>

definition is_space :: "char \<Rightarrow> bool" where
  "is_space c = (c \<in> set [CHR 0x09, CHR 0x0A, CHR 0x0B, CHR 0x0C, CHR 0x0D, CHR 0x20])"

definition str_trim :: "string \<Rightarrow> string" where
  "str_trim s = rev (dropWhile is_space (rev (dropWhile is_space s)))"

fun split_comma :: "string \<Rightarrow> string list" where
  "split_comma [] = [[]]"
| "split_comma (c # cs) =
     (if c = CHR '','' then [] # split_comma cs
      else (case split_comma cs of [] \<Rightarrow> [[c]] | w # ws \<Rightarrow> (c # w) # ws))"

definition vary_star :: "response \<Rightarrow> bool" where
  "vary_star r =
     (case headers_get (res_headers r) ''vary'' of
        None \<Rightarrow> False
      | Some v \<Rightarrow> ''*'' \<in> set (map str_trim (split_comma v)))"

subsection \<open>Cache storage and network, as the browser provides them\<close>

text \<open>
  \<open>caches\<close> is a list of named partitions in creation order; a partition maps the URL
  of a GET request to the stored response. \<open>caches.match\<close> returns the entry of the
  first partition that has one, \<open>undefined\<close> (\<open>None\<close>) when none has.
\<close>

type_synonym cache = "(string \<times> response) list"
type_synonym cache_storage = "(string \<times> cache) list"

definition caches_keys :: "cache_storage \<Rightarrow> string list" where
  "caches_keys st = map fst st"

definition caches_open :: "string \<Rightarrow> cache_storage \<Rightarrow> cache_storage" where
  "caches_open name st = (if name \<in> set (caches_keys st) then st else st @ [(name, [])])"

definition caches_delete :: "string \<Rightarrow> cache_storage \<Rightarrow> cache_storage" where
  "caches_delete name st = AList.delete name st"

definition cache_of :: "cache_storage \<Rightarrow> string \<Rightarrow> cache" where
  "cache_of st name = (case map_of st name of None \<Rightarrow> [] | Some c \<Rightarrow> c)"

fun caches_match :: "cache_storage \<Rightarrow> string \<Rightarrow> response option" where
  "caches_match [] k = None"
| "caches_match ((name, c) # rest) k =
     (case map_of c k of Some r \<Rightarrow> Some r | None \<Rightarrow> caches_match rest k)"

text \<open>
  The put operation of the Cache API's batch: the entry of the named partition under the
  key is replaced, or added.
\<close>

definition put_entry :: "string \<Rightarrow> string \<Rightarrow> response \<Rightarrow> cache_storage \<Rightarrow> cache_storage" where
  "put_entry name k r st = AList.map_entry name (AList.update k r) st"

text \<open>
  \<open>cache.put\<close> on the named partition, for a GET request: it rejects a response with
  status 206 and a response whose \<open>Vary\<close> header has the value \<open>*\<close>, and stores
  nothing then. The worker's location, and with it every URL the worker hands to
  \<open>cache.put\<close> and \<open>cache.addAll\<close>, has the scheme http or https, as the platform
  requires of a service worker; the test both make of the scheme is not modelled.
\<close>

definition cache_put ::
  "string \<Rightarrow> string \<Rightarrow> response \<Rightarrow> cache_storage \<Rightarrow> (error + unit) \<times> cache_storage" where
  "cache_put name k r st =
     (if status r = 206 then (Inl BadResponse, st)
      else if vary_star r then (Inl BadResponse, st)
      else (Inr (), put_entry name k r st))"

text \<open>
  The network answers a URL with a response or not at all. \<open>cache.addAll\<close> fetches every
  URL and stores all the responses, or none. It rejects when one fetch fails, when one
  response is not \<open>ok\<close> or has status 206, when one has \<open>*\<close> in its \<open>Vary\<close>
  header (\<open>addable\<close> is the response it takes), and when two of the URLs are the same.
\<close>

type_synonym network = "string \<Rightarrow> error + response"

definition addable :: "response \<Rightarrow> bool" where
  "addable r = (response_ok r \<and> status r \<noteq> 206 \<and> \<not> vary_star r)"

fun fetch_all :: "network \<Rightarrow> string list \<Rightarrow> error + (string \<times> response) list" where
  "fetch_all net [] = Inr []"
| "fetch_all net (u # us) =
     (case net u of
        Inl e \<Rightarrow> Inl e
      | Inr r \<Rightarrow>
          if \<not> addable r then Inl BadResponse
          else (case fetch_all net us of
                  Inl e \<Rightarrow> Inl e
                | Inr ps \<Rightarrow> Inr ((u, r) # ps)))"

definition cache_addAll ::
  "network \<Rightarrow> string \<Rightarrow> string list \<Rightarrow> cache_storage \<Rightarrow> (error + unit) \<times> cache_storage" where
  "cache_addAll net name us st =
     (case fetch_all net us of
        Inl e \<Rightarrow> (Inl e, st)
      | Inr ps \<Rightarrow>
          if \<not> distinct us then (Inl InvalidState, st)
          else (Inr (), fold (\<lambda>(u, r). put_entry name u r) ps st))"

subsection \<open>activate\<close>

record activation =
  act_waitUntil :: "error + unit"
  act_claimed :: bool
  act_store :: cache_storage

text \<open>The callback mapped over \<open>cacheNames\<close>.\<close>

definition delete_old :: "string \<Rightarrow> cache_storage \<Rightarrow> cache_storage" where
  "delete_old cacheName st =
     (if cacheName \<noteq> STATIC_CACHE \<and> cacheName \<noteq> DYNAMIC_CACHE
      then caches_delete cacheName st else st)"

definition on_activate :: "cache_storage \<Rightarrow> activation" where
  "on_activate st =
     (let cacheNames = caches_keys st;
          st' = fold delete_old cacheNames st
      in \<lparr>act_waitUntil = Inr (), act_claimed = True, act_store = st'\<rparr>)"

subsection \<open>install\<close>

record installation =
  inst_waitUntil :: "error + unit"
  inst_skipWaiting :: bool
  inst_logged :: "error list"
  inst_store :: cache_storage

text \<open>
  The chain \<open>caches.open(STATIC_CACHE).then(addAll).then(skipWaiting).catch(log)\<close>.
  The handler of \<open>catch\<close> calls \<open>console.error\<close> and returns nothing, so the promise
  the chain hands to \<open>waitUntil\<close> is fulfilled on that path too.
\<close>

definition on_install :: "url \<Rightarrow> network \<Rightarrow> cache_storage \<Rightarrow> installation" where
  "on_install loc net st =
     (let st1 = caches_open STATIC_CACHE st
      in case cache_addAll net STATIC_CACHE (map (resolve loc) STATIC_FILES) st1 of
           (Inr _, st2) \<Rightarrow>
             \<lparr>inst_waitUntil = Inr (), inst_skipWaiting = True, inst_logged = [],
              inst_store = st2\<rparr>
         | (Inl error, st2) \<Rightarrow>
             \<lparr>inst_waitUntil = Inr (), inst_skipWaiting = False, inst_logged = [error],
              inst_store = st2\<rparr>)"

subsection \<open>fetch\<close>

text \<open>
  What the handler gives to \<open>respondWith\<close>: the settlement of the promise
  (\<open>Inr None\<close> is a fulfilment with \<open>undefined\<close>), the URLs it fetched from the
  network, the write to a cache it started without waiting for it (cache name, key,
  cloned response), and what it passed to \<open>console.error\<close>.
\<close>

record responding =
  settled :: "error + response option"
  net_calls :: "string list"
  deferred_put :: "(string \<times> string \<times> response) option"
  logged :: "error list"

datatype fetch_handling = PassThrough | RespondWith responding

text \<open>
  \<open>new Response(svg, {headers: {'Content-Type': 'image/svg+xml'}})\<close>: status 200,
  type \<open>default\<close>. The body is the UTF-8 encoding of the source's literal.
\<close>

definition placeholder_image :: response where
  \<open>placeholder_image =
     \<lparr>status = 200, rtype = Default, redirected = False,
      res_headers = [(''content-type'', ''image/svg+xml'')],
      body = ''<svg xmlns="http://www.w3.org/2000/svg" width="200" height="200" viewBox="0 0 200 200"><rect width="200" height="200" fill="#f0f0f0"/><text x="100" y="100" text-anchor="middle" fill="#999">Bild nicht verf''
             @ [CHR 0xC3, CHR 0xBC] @ ''gbar</text></svg>''\<rparr>\<close>

text \<open>
  The handler of \<open>catch\<close> after a failed fetch. \<open>headers.get('accept')\<close> is \<open>null\<close>
  when the request has no such header, and \<open>null.includes\<close> throws.
\<close>

definition offline_fallback ::
  "url \<Rightarrow> cache_storage \<Rightarrow> request \<Rightarrow> error \<Rightarrow> error + response option" where
  "offline_fallback loc st req error =
     (case headers_get (req_headers req) ''accept'' of
        None \<Rightarrow> Inl NullProperty
      | Some accept \<Rightarrow>
          if str_includes accept ''text/html''
          then Inr (caches_match st (resolve loc ''/index.html''))
          else if str_includes accept ''image''
          then Inr (Some placeholder_image)
          else Inl error)"

text \<open>
  The promise given to \<open>respondWith\<close>. Every request that reaches it is a GET request,
  so the network is asked by URL. \<open>fetch\<close> never fulfils with a falsy value, so the
  test \<open>!fetchResponse\<close> of the source is always false.
\<close>

definition respond :: "url \<Rightarrow> network \<Rightarrow> cache_storage \<Rightarrow> request \<Rightarrow> responding" where
  "respond loc net st req =
     (let key = href (req_url req)
      in case caches_match st key of
           Some response \<Rightarrow>
             \<lparr>settled = Inr (Some response), net_calls = [], deferred_put = None,
              logged = []\<rparr>
         | None \<Rightarrow>
             (case net key of
                Inr fetchResponse \<Rightarrow>
                  if status fetchResponse \<noteq> 200 \<or> rtype fetchResponse \<noteq> Basic
                  then \<lparr>settled = Inr (Some fetchResponse), net_calls = [key],
                        deferred_put = None, logged = []\<rparr>
                  else \<lparr>settled = Inr (Some fetchResponse), net_calls = [key],
                        deferred_put = Some (DYNAMIC_CACHE, key, fetchResponse),
                        logged = []\<rparr>
              | Inl error \<Rightarrow>
                  \<lparr>settled = offline_fallback loc st req error, net_calls = [key],
                   deferred_put = None, logged = [error]\<rparr>))"

definition on_fetch ::
  "url \<Rightarrow> network \<Rightarrow> cache_storage \<Rightarrow> request \<Rightarrow> fetch_handling" where
  "on_fetch loc net st req =
     (if req_method req \<noteq> ''GET'' then PassThrough
      else if \<not> startsWith (href (req_url req)) (origin loc) then PassThrough
      else RespondWith (respond loc net st req))"

text \<open>
  The write the handler started, once it has run:
  \<open>caches.open(name).then(cache => cache.put(request, clone))\<close>. The partition
  is there afterwards also when \<open>cache.put\<close> rejects; nothing handles the rejection.
\<close>

definition complete_put ::
  "(string \<times> string \<times> response) option \<Rightarrow> cache_storage \<Rightarrow>
     (error + unit) \<times> cache_storage" where
  "complete_put d st =
     (case d of
        None \<Rightarrow> (Inr (), st)
      | Some (name, k, r) \<Rightarrow> cache_put name k r (caches_open name st))"

subsection \<open>message\<close>

text \<open>
  \<open>msg_type\<close> is \<open>event.data.type\<close>, \<open>None\<close> when \<open>event.data\<close> is falsy or has
  no such field; \<open>msg_ports\<close> are the ports that came with the message.
  A reply \<open>Version v\<close> is the object \<open>{version: v}\<close>.
\<close>

record message_event =
  msg_type :: "string option"
  msg_ports :: "nat list"

datatype reply = Version string

record messaging =
  msg_skipWaiting :: bool
  msg_posted :: "(nat \<times> reply) list"
  msg_thrown :: "error option"
  msg_waitUntil :: "(error + unit) option"
  msg_store :: cache_storage

text \<open>
  The three \<open>if\<close> statements of the handler, in order. \<open>event.ports[0]\<close> is
  \<open>undefined\<close> when no port came with the message, and calling \<open>postMessage\<close> on it
  throws, which ends the handler.
\<close>

definition on_message ::
  "url \<Rightarrow> network \<Rightarrow> cache_storage \<Rightarrow> message_event \<Rightarrow> messaging" where
  "on_message loc net st ev =
     (let r0 = \<lparr>msg_skipWaiting = False, msg_posted = [], msg_thrown = None,
                msg_waitUntil = None, msg_store = st\<rparr>;
          r1 = (if msg_type ev = Some ''SKIP_WAITING''
                then r0\<lparr>msg_skipWaiting := True\<rparr> else r0);
          r2 = (if msg_type ev = Some ''GET_VERSION''
                then (case msg_ports ev of
                        [] \<Rightarrow> r1\<lparr>msg_thrown := Some NullProperty\<rparr>
                      | p # _ \<Rightarrow> r1\<lparr>msg_posted := [(p, Version CACHE_NAME)]\<rparr>)
                else r1)
      in if msg_thrown r2 \<noteq> None then r2
         else if msg_type ev = Some ''CACHE_UPDATE''
         then (let st1 = caches_delete STATIC_CACHE st;
                   st2 = caches_open STATIC_CACHE st1;
                   (p, st3) = cache_addAll net STATIC_CACHE
                                (map (resolve loc) STATIC_FILES) st2
               in r2\<lparr>msg_waitUntil := Some p, msg_store := st3\<rparr>)
         else r2)"

subsection \<open>Example inputs\<close>

definition sw_location :: url where
  "sw_location = \<lparr>scheme = ''https'', host = ''netzscout.github.io'', port = [],
                   path = ''/sw.js''\<rparr>"

definition site_url :: "string \<Rightarrow> url" where
  "site_url p = \<lparr>scheme = ''https'', host = ''netzscout.github.io'', port = [], path = p\<rparr>"

definition page :: "string \<Rightarrow> response" where
  "page b = \<lparr>status = 200, rtype = Basic, redirected = False, res_headers = [],
              body = b\<rparr>"

definition offline :: network where
  "offline = (\<lambda>u. Inl NetworkError)"

definition online :: network where
  "online = (\<lambda>u. Inr (page u))"

definition no_content :: response where
  "no_content = \<lparr>status = 204, rtype = Basic, redirected = False, res_headers = [],
                  body = []\<rparr>"

definition moved_page :: response where
  "moved_page = \<lparr>status = 200, rtype = Basic, redirected = True, res_headers = [],
                  body = ''moved''\<rparr>"

definition varying_page :: response where
  "varying_page = \<lparr>status = 200, rtype = Basic, redirected = False,
                    res_headers = [(''vary'', ''accept-encoding, *'')], body = ''varying''\<rparr>"

definition partial_page :: response where
  "partial_page = \<lparr>status = 206, rtype = Basic, redirected = False, res_headers = [],
                    body = ''part''\<rparr>"

definition lookalike_url :: url where
  "lookalike_url = \<lparr>scheme = ''https'', host = ''netzscout.github.io.example.org'',
                     port = [], path = ''/x.png''\<rparr>"

definition get_request :: "url \<Rightarrow> (string \<times> string) list \<Rightarrow> request" where
  "get_request u hs = \<lparr>req_method = ''GET'', req_url = u, req_headers = hs\<rparr>"

section \<open>Properties\<close>

subsection \<open>Cache storage\<close>

lemma caches_keys_delete:
  "caches_keys (caches_delete n st) = filter (\<lambda>m. m \<noteq> n) (caches_keys st)"
  by (induction st) (auto simp: caches_keys_def caches_delete_def AList.delete_eq)

lemma caches_keys_delete_old:
  "caches_keys (fold delete_old ns st) =
     filter (\<lambda>m. m \<notin> set ns \<or> m = STATIC_CACHE \<or> m = DYNAMIC_CACHE) (caches_keys st)"
proof (induction ns arbitrary: st)
  case Nil
  show ?case by simp
next
  case (Cons n ns)
  have "caches_keys (fold delete_old (n # ns) st) =
          filter (\<lambda>m. m \<notin> set ns \<or> m = STATIC_CACHE \<or> m = DYNAMIC_CACHE)
            (caches_keys (delete_old n st))"
    by (simp add: Cons.IH)
  also have "\<dots> =
          filter (\<lambda>m. m \<notin> set (n # ns) \<or> m = STATIC_CACHE \<or> m = DYNAMIC_CACHE)
            (caches_keys st)"
    by (auto simp: delete_old_def caches_keys_delete intro: filter_cong)
  finally show ?case .
qed

lemma map_of_delete_old:
  "name = STATIC_CACHE \<or> name = DYNAMIC_CACHE \<Longrightarrow>
     map_of (fold delete_old ns st) name = map_of st name"
  by (induction ns arbitrary: st) (auto simp: delete_old_def caches_delete_def)

lemma caches_match_None_iff:
  "caches_match st k = None \<longleftrightarrow> (\<forall>(n, c) \<in> set st. map_of c k = None)"
  by (induction st k rule: caches_match.induct) (auto split: option.splits)

lemma caches_match_append_empty:
  "caches_match (st @ [(name, [])]) k = caches_match st k"
  by (induction st k rule: caches_match.induct) (auto split: option.splits)

lemma caches_match_open:
  "caches_match (caches_open name st) k = caches_match st k"
  by (simp add: caches_open_def caches_match_append_empty)

lemma caches_keys_open: "name \<in> set (caches_keys (caches_open name st))"
  by (simp add: caches_open_def caches_keys_def)

lemma caches_match_put:
  "caches_match st k = None \<Longrightarrow> name \<in> set (caches_keys st) \<Longrightarrow>
     caches_match (put_entry name k r st) k = Some r"
  by (induction st k rule: caches_match.induct)
    (auto simp: put_entry_def caches_keys_def AList.update_conv' split: option.splits)

lemma same_origin_startsWith:
  "origin u = origin loc \<Longrightarrow> startsWith (href u) (origin loc)"
  by (simp add: startsWith_def href_def)

lemma caches_keys_put: "set (caches_keys (put_entry name k r st)) = set (caches_keys st)"
  by (simp add: caches_keys_def put_entry_def dom_map_entry)

lemma cache_of_put:
  "name \<in> set (caches_keys st) \<Longrightarrow>
     map_of (cache_of (put_entry name k r st) name) = (map_of (cache_of st name))(k \<mapsto> r)"
  by (auto simp: cache_of_def put_entry_def caches_keys_def map_of_map_entry
      AList.update_conv' map_of_eq_None_iff split: option.splits)

lemma fetch_all_Inr:
  "fetch_all net us = Inr ps \<Longrightarrow>
     map fst ps = us \<and> (\<forall>(u, r) \<in> set ps. net u = Inr r \<and> addable r)"
  by (induction us arbitrary: ps) (auto split: sum.splits if_splits)

lemma fetch_all_Inr_iff:
  "(\<exists>ps. fetch_all net us = Inr ps) \<longleftrightarrow> (\<forall>u \<in> set us. \<exists>r. net u = Inr r \<and> addable r)"
  by (induction us) (auto split: sum.splits if_splits)

lemma fold_put_lookup:
  "name \<in> set (caches_keys st) \<Longrightarrow> \<forall>(u, r) \<in> set ps. net u = Inr r \<Longrightarrow>
     map_of (cache_of (fold (\<lambda>(u, r). put_entry name u r) ps st) name) k =
       (if k \<in> fst ` set ps then (case net k of Inr r \<Rightarrow> Some r | Inl e \<Rightarrow> None)
        else map_of (cache_of st name) k)"
proof (induction ps arbitrary: st)
  case Nil
  show ?case by simp
next
  case (Cons p ps)
  obtain u r where p: "p = (u, r)" by (cases p)
  have keys: "name \<in> set (caches_keys (put_entry name u r st))"
    using Cons.prems(1) by (simp add: caches_keys_put)
  have rest: "\<forall>(u, r) \<in> set ps. net u = Inr r"
    using Cons.prems(2) by simp
  have here: "net u = Inr r"
    using Cons.prems(2) p by simp
  show ?case
    using Cons.IH [OF keys rest] here
    by (auto simp: p cache_of_put [OF Cons.prems(1)])
qed

lemma open_after_delete:
  "map_of (caches_open name (caches_delete name st)) name = Some []"
proof -
  have absent: "name \<notin> set (caches_keys (caches_delete name st))"
    by (simp add: caches_keys_delete)
  then have "map_of (caches_delete name st) name = None"
    by (simp add: caches_keys_def map_of_eq_None_iff)
  with absent show ?thesis
    by (simp add: caches_open_def map_add_def)
qed

lemma caches_match_None_cache_of:
  "caches_match st k = None \<Longrightarrow> map_of (cache_of st name) k = None"
proof (cases "map_of st name")
  case None
  then show ?thesis by (simp add: cache_of_def)
next
  case (Some c)
  then have "(name, c) \<in> set st" by (rule map_of_SomeD)
  moreover assume "caches_match st k = None"
  ultimately have "map_of c k = None"
    by (auto simp: caches_match_None_iff)
  with Some show ?thesis by (simp add: cache_of_def)
qed

lemma map_of_open_other:
  "map_of (cache_of (caches_open name st) name') k = map_of (cache_of st name') k"
proof (cases "name \<in> set (caches_keys st)")
  case True
  then show ?thesis by (simp add: caches_open_def)
next
  case False
  have "map_of (st @ [(name, [])]) name' =
          (case map_of st name' of
             None \<Rightarrow> (if name' = name then Some [] else None)
           | Some c \<Rightarrow> Some c)"
    by (simp add: map_add_def split: option.splits)
  with False show ?thesis
    by (simp add: caches_open_def cache_of_def split: option.splits)
qed

lemma manifest_distinct: "distinct (map (resolve loc) STATIC_FILES)"
proof -
  have "inj (resolve loc)"
    by (simp add: inj_on_def resolve_def)
  moreover have "distinct STATIC_FILES"
    by (simp add: STATIC_FILES_def)
  ultimately show ?thesis
    by (simp add: distinct_map inj_on_def)
qed

lemma cache_put_accepts:
  "fst (cache_put name k r st) = Inr () \<longleftrightarrow> status r \<noteq> 206 \<and> \<not> vary_star r"
  by (simp add: cache_put_def)

lemma cache_put_rejected:
  "fst (cache_put name k r st) \<noteq> Inr () \<Longrightarrow> snd (cache_put name k r st) = st"
  by (simp add: cache_put_def split: if_splits)

subsection \<open>activate\<close>

text \<open>
  C7. After the activate handler has completed, every cache partition that exists is named
  by the current static or the current dynamic identifier: the handler enumerates the
  partitions and deletes each one whose name differs from both.
\<close>

theorem activate_leaves_only_current:
  "\<forall>n \<in> set (caches_keys (act_store (on_activate st))).
      n = STATIC_CACHE \<or> n = DYNAMIC_CACHE"
  by (auto simp: on_activate_def Let_def caches_keys_delete_old)

theorem activate_leaves_only_current_witness:
  "STATIC_CACHE \<in> set (caches_keys (act_store (on_activate
      [(''bastelglueck-static-v0'', []), (STATIC_CACHE, []), (''other'', []),
       (DYNAMIC_CACHE, [])])))
   \<and> ''other'' \<notin> set (caches_keys (act_store (on_activate
      [(''bastelglueck-static-v0'', []), (STATIC_CACHE, []), (''other'', []),
       (DYNAMIC_CACHE, [])])))"
proof -
  let ?st = "[(''bastelglueck-static-v0'', []), (STATIC_CACHE, []), (''other'', []),
              (DYNAMIC_CACHE, [])] :: cache_storage"
  have "STATIC_CACHE \<in> set (caches_keys (act_store (on_activate ?st)))"
    by (simp add: on_activate_def Let_def caches_keys_def delete_old_def caches_delete_def
        AList.delete_eq STATIC_CACHE_def DYNAMIC_CACHE_def)
  moreover have "''other'' \<noteq> STATIC_CACHE" "''other'' \<noteq> DYNAMIC_CACHE"
    by (simp_all add: STATIC_CACHE_def DYNAMIC_CACHE_def)
  with activate_leaves_only_current [of ?st]
  have "''other'' \<notin> set (caches_keys (act_store (on_activate ?st)))"
    by blast
  ultimately show ?thesis by simp
qed

lemma activate_keeps_current:
  "name = STATIC_CACHE \<or> name = DYNAMIC_CACHE \<Longrightarrow>
     map_of (act_store (on_activate st)) name = map_of st name"
  by (simp add: on_activate_def Let_def map_of_delete_old)

lemma activate_fulfils_and_claims:
  "act_waitUntil (on_activate st) = Inr () \<and> act_claimed (on_activate st)"
  by (simp add: on_activate_def Let_def)

subsection \<open>install\<close>

lemma addAll_fst:
  "fst (cache_addAll net name us st) = Inr () \<longleftrightarrow>
     distinct us \<and> (\<forall>u \<in> set us. \<exists>r. net u = Inr r \<and> addable r)"
  using fetch_all_Inr_iff [of net us]
  by (auto simp: cache_addAll_def split: sum.splits)

lemma addAll_failure:
  "fst (cache_addAll net name us st) = Inl e \<Longrightarrow> snd (cache_addAll net name us st) = st"
  by (auto simp: cache_addAll_def split: sum.splits if_splits)

lemma addAll_success:
  assumes "fst (cache_addAll net name us st) = Inr ()" "name \<in> set (caches_keys st)"
  shows "map_of (cache_of (snd (cache_addAll net name us st)) name) k =
           (if k \<in> set us then (case net k of Inr r \<Rightarrow> Some r | Inl e \<Rightarrow> None)
            else map_of (cache_of st name) k)"
proof -
  from assms(1) obtain ps where ps: "fetch_all net us = Inr ps" and d: "distinct us"
    by (auto simp: cache_addAll_def split: sum.splits if_splits)
  from fetch_all_Inr [OF ps] have us: "map fst ps = us"
    and ok: "\<forall>(u, r) \<in> set ps. net u = Inr r" by auto
  have "fst ` set ps = set us"
    using us by (metis set_map)
  then show ?thesis
    using fold_put_lookup [OF assms(2) ok, of k]
    by (simp add: cache_addAll_def ps d)
qed

lemma addAll_manifest:
  "fst (cache_addAll net name (map (resolve loc) STATIC_FILES) st) = Inr () \<longleftrightarrow>
     (\<forall>p \<in> set STATIC_FILES. \<exists>r. net (resolve loc p) = Inr r \<and> addable r)"
  by (simp add: addAll_fst manifest_distinct)

text \<open>
  C1, as the worker does it. The promise the install handler gives to \<open>waitUntil\<close> is
  fulfilled whether or not the static cache could be populated: a failure is caught and
  passed to \<open>console.error\<close>, and the cache storage is left as \<open>caches.open\<close> made it.
  \<open>skipWaiting\<close> is signalled exactly when \<open>cache.addAll\<close> took every path of the
  manifest: each was fetched, with an \<open>ok\<close> status other than 206 and no \<open>*\<close> in
  \<open>Vary\<close>; then each of them is stored in the static cache.
\<close>

theorem install_always_fulfils:
  "inst_waitUntil (on_install loc net st) = Inr ()
   \<and> (inst_skipWaiting (on_install loc net st) \<longleftrightarrow>
        (\<forall>p \<in> set STATIC_FILES. \<exists>r. net (resolve loc p) = Inr r \<and> addable r))
   \<and> (inst_skipWaiting (on_install loc net st) \<longrightarrow>
        (\<forall>p \<in> set STATIC_FILES. \<exists>r. net (resolve loc p) = Inr r \<and>
           map_of (cache_of (inst_store (on_install loc net st)) STATIC_CACHE) (resolve loc p)
             = Some r))
   \<and> (\<not> inst_skipWaiting (on_install loc net st) \<longrightarrow>
        (\<exists>e. inst_logged (on_install loc net st) = [e]) \<and>
        inst_store (on_install loc net st) = caches_open STATIC_CACHE st)"
proof -
  let ?us = "map (resolve loc) STATIC_FILES"
  let ?st1 = "caches_open STATIC_CACHE st"
  let ?a = "cache_addAll net STATIC_CACHE ?us ?st1"
  have res: "on_install loc net st =
      (case fst ?a of
         Inr _ \<Rightarrow> \<lparr>inst_waitUntil = Inr (), inst_skipWaiting = True, inst_logged = [],
                   inst_store = snd ?a\<rparr>
       | Inl error \<Rightarrow> \<lparr>inst_waitUntil = Inr (), inst_skipWaiting = False,
                   inst_logged = [error], inst_store = snd ?a\<rparr>)"
    by (simp add: on_install_def Let_def split: prod.splits sum.splits)
  have skip: "inst_skipWaiting (on_install loc net st) \<longleftrightarrow> fst ?a = Inr ()"
    by (simp add: res split: sum.splits)
  have c1: "inst_waitUntil (on_install loc net st) = Inr ()"
    by (simp add: res split: sum.splits)
  have c2: "inst_skipWaiting (on_install loc net st) \<longleftrightarrow>
        (\<forall>p \<in> set STATIC_FILES. \<exists>r. net (resolve loc p) = Inr r \<and> addable r)"
    by (simp add: skip addAll_manifest)
  have c3: "\<exists>r. net (resolve loc p) = Inr r \<and>
           map_of (cache_of (inst_store (on_install loc net st)) STATIC_CACHE) (resolve loc p)
             = Some r"
    if s: "inst_skipWaiting (on_install loc net st)" and p: "p \<in> set STATIC_FILES" for p
  proof -
    from s have ok: "fst ?a = Inr ()" by (simp add: skip)
    from s p c2 obtain r where r: "net (resolve loc p) = Inr r" by blast
    have "inst_store (on_install loc net st) = snd ?a"
      by (simp add: res ok)
    then show ?thesis
      using addAll_success [OF ok caches_keys_open, of "resolve loc p"] p r by simp
  qed
  have c4: "(\<exists>e. inst_logged (on_install loc net st) = [e]) \<and>
        inst_store (on_install loc net st) = ?st1"
    if s: "\<not> inst_skipWaiting (on_install loc net st)"
  proof -
    from s obtain e where e: "fst ?a = Inl e"
      by (cases "fst ?a") (auto simp: skip)
    show ?thesis
      using addAll_failure [OF e] by (simp add: res e)
  qed
  show ?thesis using c1 c2 c3 c4 by blast
qed

theorem install_always_fulfils_witness:
  "inst_waitUntil (on_install sw_location online []) = Inr ()
   \<and> inst_skipWaiting (on_install sw_location online [])
   \<and> map_of (cache_of (inst_store (on_install sw_location online [])) STATIC_CACHE)
        ''https://netzscout.github.io/index.html''
      = Some (page ''https://netzscout.github.io/index.html'')
   \<and> \<not> inst_skipWaiting (on_install sw_location offline [])
   \<and> inst_store (on_install sw_location offline []) = [(STATIC_CACHE, [])]"
proof -
  have net: "\<forall>p \<in> set STATIC_FILES. \<exists>r. online (resolve sw_location p) = Inr r \<and> addable r"
    by (simp add: online_def page_def addable_def response_ok_def vary_star_def
        headers_get_def)
  have idx: "''/index.html'' \<in> set STATIC_FILES"
    by (simp add: STATIC_FILES_def)
  have url: "resolve sw_location ''/index.html'' = ''https://netzscout.github.io/index.html''"
    by (simp add: resolve_def origin_def sw_location_def)
  have off: "\<not> (\<forall>p \<in> set STATIC_FILES. \<exists>r. offline (resolve sw_location p) = Inr r \<and> addable r)"
    by (auto simp: offline_def STATIC_FILES_def)
  have opened: "caches_open STATIC_CACHE [] = [(STATIC_CACHE, [])]"
    by (simp add: caches_open_def caches_keys_def)
  note on = install_always_fulfils [of sw_location online "[]"]
  note no = install_always_fulfils [of sw_location offline "[]"]
  from on net have skip: "inst_skipWaiting (on_install sw_location online [])" by blast
  with on idx obtain r where "online (resolve sw_location ''/index.html'') = Inr r"
    and "map_of (cache_of (inst_store (on_install sw_location online [])) STATIC_CACHE)
          (resolve sw_location ''/index.html'') = Some r" by blast
  then have stored: "map_of (cache_of (inst_store (on_install sw_location online [])) STATIC_CACHE)
        ''https://netzscout.github.io/index.html''
      = Some (page ''https://netzscout.github.io/index.html'')"
    by (simp add: url online_def)
  from no off have nskip: "\<not> inst_skipWaiting (on_install sw_location offline [])" by blast
  with no have "inst_store (on_install sw_location offline []) = caches_open STATIC_CACHE []"
    by blast
  with on skip stored nskip opened show ?thesis by simp
qed

text \<open>
  C1 as stated asks for a rejected promise when populating fails. With no network the
  population fails and the promise is fulfilled all the same.
\<close>

theorem install_counterexample:
  "fetch_all offline (map (resolve sw_location) STATIC_FILES) = Inl NetworkError
   \<and> inst_waitUntil (on_install sw_location offline []) = Inr ()"
  by (simp add: on_install_def cache_addAll_def offline_def STATIC_FILES_def Let_def)

text \<open>
  A response \<open>cache.addAll\<close> does not take keeps the worker from signalling
  \<open>skipWaiting\<close> although its status is successful: one with status 206, one with
  \<open>*\<close> in \<open>Vary\<close>.
\<close>

lemma addable_examples:
  "addable (page b) \<and> \<not> addable partial_page \<and> \<not> addable varying_page
   \<and> response_ok partial_page \<and> response_ok varying_page"
  by (simp add: addable_def response_ok_def vary_star_def headers_get_def str_trim_def
      is_space_def page_def partial_page_def varying_page_def)

lemma install_refused_response:
  "\<not> inst_skipWaiting (on_install sw_location (\<lambda>u. Inr partial_page) [])
   \<and> \<not> inst_skipWaiting (on_install sw_location (\<lambda>u. Inr varying_page) [])"
  using addable_examples
  by (simp add: on_install_def Let_def cache_addAll_def STATIC_FILES_def)

subsection \<open>fetch: which requests are intercepted\<close>

text \<open>
  The two guards of the handler let a request pass when its method is not GET, and when
  its URL, as a string, does not begin with the string of the worker's origin.
\<close>

lemma non_get_passes_through:
  "req_method req \<noteq> ''GET'' \<Longrightarrow> on_fetch loc net st req = PassThrough"
  by (simp add: on_fetch_def)

lemma unprefixed_url_passes_through:
  "\<not> startsWith (href (req_url req)) (origin loc) \<Longrightarrow> on_fetch loc net st req = PassThrough"
  by (simp add: on_fetch_def)

text \<open>
  C5. A GET request to another origin is to pass through untouched. The second guard
  compares strings: a URL on the host \<open>netzscout.github.io.example.org\<close> begins with
  the worker's origin \<open>https://netzscout.github.io\<close>, so the handler answers this
  cross-origin request itself (here, with no network, by the placeholder image).
\<close>

theorem lookalike_origin_intercepted:
  "origin lookalike_url \<noteq> origin sw_location
   \<and> on_fetch sw_location offline [] (get_request lookalike_url [(''accept'', ''image/png'')])
       = RespondWith
           \<lparr>settled = Inr (Some placeholder_image),
            net_calls = [''https://netzscout.github.io.example.org/x.png''],
            deferred_put = None, logged = [NetworkError]\<rparr>"
  by (simp add: on_fetch_def respond_def offline_fallback_def headers_get_def startsWith_def
      href_def origin_def lookalike_url_def sw_location_def get_request_def offline_def Let_def)

subsection \<open>fetch: cache first\<close>

text \<open>
  C6. An intercepted GET request whose URL has an entry in the cache storage is answered
  with the stored response as it is, and the network is not asked.
\<close>

theorem cache_hit_served_without_network:
  assumes "req_method req = ''GET''"
    and "startsWith (href (req_url req)) (origin loc)"
    and "caches_match st (href (req_url req)) = Some r"
  shows "on_fetch loc net st req =
           RespondWith \<lparr>settled = Inr (Some r), net_calls = [], deferred_put = None,
                        logged = []\<rparr>"
  using assms by (simp add: on_fetch_def respond_def Let_def)

theorem cache_hit_served_without_network_witness:
  "on_fetch sw_location offline
      [(STATIC_CACHE, [(''https://netzscout.github.io/index.html'', page ''home'')])]
      (get_request (site_url ''/index.html'') [])
     = RespondWith \<lparr>settled = Inr (Some (page ''home'')), net_calls = [],
                    deferred_put = None, logged = []\<rparr>"
proof -
  let ?st = "[(STATIC_CACHE, [(''https://netzscout.github.io/index.html'', page ''home'')])]"
  let ?req = "get_request (site_url ''/index.html'') []"
  have m: "req_method ?req = ''GET''"
    by (simp add: get_request_def)
  have p: "startsWith (href (req_url ?req)) (origin sw_location)"
    by (simp add: get_request_def site_url_def sw_location_def startsWith_def href_def
        origin_def)
  have h: "caches_match ?st (href (req_url ?req)) = Some (page ''home'')"
    by (simp add: get_request_def site_url_def href_def origin_def)
  show ?thesis
    by (rule cache_hit_served_without_network [OF m p h])
qed

lemma complete_put_store:
  "snd (complete_put (Some (name, k, r)) st) =
     (if status r \<noteq> 206 \<and> \<not> vary_star r
      then put_entry name k r (caches_open name st) else caches_open name st)"
  by (simp add: complete_put_def cache_put_def)

lemma dynamic_write_completes:
  "fst (complete_put (Some (name, k, r)) st) = Inr () \<longleftrightarrow> status r \<noteq> 206 \<and> \<not> vary_star r"
  by (simp add: complete_put_def cache_put_accepts)

text \<open>
  C2, as the worker does it. For a same-origin GET request that is in no cache and that
  the network answers, the response goes back to the page unchanged. A write to the
  dynamic cache is started if and only if the status is exactly 200 and the response
  type is \<open>basic\<close>; the \<open>redirected\<close> flag is not looked at. Once the write has run,
  the entry is in the dynamic cache if and only if, moreover, the response has no \<open>*\<close>
  in \<open>Vary\<close>; otherwise the URL is still in no cache.
\<close>

theorem dynamic_entry_iff_200_basic_storable:
  assumes "req_method req = ''GET''"
    and "origin (req_url req) = origin loc"
    and "caches_match st (href (req_url req)) = None"
    and "net (href (req_url req)) = Inr r"
  shows "case on_fetch loc net st req of
           PassThrough \<Rightarrow> False
         | RespondWith res \<Rightarrow>
             res = \<lparr>settled = Inr (Some r), net_calls = [href (req_url req)],
                    deferred_put =
                      (if status r = 200 \<and> rtype r = Basic
                       then Some (DYNAMIC_CACHE, href (req_url req), r) else None),
                    logged = []\<rparr>
             \<and> map_of (cache_of (snd (complete_put (deferred_put res) st)) DYNAMIC_CACHE)
                  (href (req_url req)) =
                 (if status r = 200 \<and> rtype r = Basic \<and> \<not> vary_star r then Some r else None)
             \<and> caches_match (snd (complete_put (deferred_put res) st)) (href (req_url req)) =
                 (if status r = 200 \<and> rtype r = Basic \<and> \<not> vary_star r then Some r else None)"
proof -
  let ?key = "href (req_url req)"
  let ?d = "if status r = 200 \<and> rtype r = Basic then Some (DYNAMIC_CACHE, ?key, r) else None"
  let ?open = "caches_open DYNAMIC_CACHE st"
  have first: "on_fetch loc net st req =
      RespondWith \<lparr>settled = Inr (Some r), net_calls = [?key], deferred_put = ?d,
                   logged = []\<rparr>"
    using assms by (simp add: on_fetch_def respond_def Let_def same_origin_startsWith)
  have miss: "caches_match ?open ?key = None"
    using assms(3) by (simp add: caches_match_open)
  have miss_dyn: "map_of (cache_of ?open DYNAMIC_CACHE) ?key = None"
    using miss by (rule caches_match_None_cache_of)
  have after: "map_of (cache_of (snd (complete_put ?d st)) DYNAMIC_CACHE) ?key =
                 (if status r = 200 \<and> rtype r = Basic \<and> \<not> vary_star r then Some r else None)
               \<and> caches_match (snd (complete_put ?d st)) ?key =
                 (if status r = 200 \<and> rtype r = Basic \<and> \<not> vary_star r then Some r else None)"
  proof (cases "status r = 200 \<and> rtype r = Basic")
    case False
    then have "snd (complete_put ?d st) = st"
      by (auto simp: complete_put_def)
    with False assms(3) show ?thesis
      by (auto simp: caches_match_None_cache_of)
  next
    case started: True
    show ?thesis
    proof (cases "vary_star r")
      case True
      then have "snd (complete_put (Some (DYNAMIC_CACHE, ?key, r)) st) = ?open"
        by (simp add: complete_put_store)
      with started True miss miss_dyn show ?thesis by simp
    next
      case False
      then have store: "snd (complete_put (Some (DYNAMIC_CACHE, ?key, r)) st) =
                          put_entry DYNAMIC_CACHE ?key r ?open"
        using started by (simp add: complete_put_store)
      have "caches_match (put_entry DYNAMIC_CACHE ?key r ?open) ?key = Some r"
        using miss caches_keys_open by (rule caches_match_put)
      moreover have "map_of (cache_of (put_entry DYNAMIC_CACHE ?key r ?open) DYNAMIC_CACHE) ?key
                       = Some r"
        by (simp add: cache_of_put [OF caches_keys_open])
      ultimately show ?thesis
        using started False by (simp add: store)
    qed
  qed
  show ?thesis
    using after by (simp add: first)
qed

theorem dynamic_entry_iff_200_basic_storable_witness:
  "on_fetch sw_location online [] (get_request (site_url ''/about.html'') [])
     = RespondWith
         \<lparr>settled = Inr (Some (page ''https://netzscout.github.io/about.html'')),
          net_calls = [''https://netzscout.github.io/about.html''],
          deferred_put = Some (DYNAMIC_CACHE, ''https://netzscout.github.io/about.html'',
                               page ''https://netzscout.github.io/about.html''),
          logged = []\<rparr>
   \<and> caches_match
        (snd (complete_put
                (Some (DYNAMIC_CACHE, ''https://netzscout.github.io/about.html'',
                       page ''https://netzscout.github.io/about.html'')) []))
        ''https://netzscout.github.io/about.html''
      = Some (page ''https://netzscout.github.io/about.html'')"
proof -
  let ?req = "get_request (site_url ''/about.html'') []"
  let ?r = "page ''https://netzscout.github.io/about.html''"
  have u: "href (req_url ?req) = ''https://netzscout.github.io/about.html''"
    by (simp add: get_request_def site_url_def href_def origin_def)
  have m: "req_method ?req = ''GET''"
    by (simp add: get_request_def)
  have o: "origin (req_url ?req) = origin sw_location"
    by (simp add: get_request_def site_url_def sw_location_def origin_def)
  have c: "caches_match [] (href (req_url ?req)) = None"
    by simp
  have n: "online (href (req_url ?req)) = Inr ?r"
    by (simp add: u online_def)
  have r: "status ?r = 200 \<and> rtype ?r = Basic \<and> \<not> vary_star ?r"
    by (simp add: page_def vary_star_def headers_get_def)
  show ?thesis
    using dynamic_entry_iff_200_basic_storable [where net = online, OF m o c n] r
    by (simp add: u split: fetch_handling.splits)
qed

text \<open>
  C2 as stated has an entry written for every successful status and \<open>basic\<close> type, and
  never one for a redirected response. A \<open>basic\<close> response with status 204 is
  successful and no write is started for it; a redirected response with status 200 and
  type \<open>basic\<close> is written to the dynamic cache; a \<open>basic\<close> response with status 200
  and \<open>*\<close> in \<open>Vary\<close> is successful and \<open>cache.put\<close> stores nothing for it.
\<close>

theorem dynamic_cache_claim_fails:
  "response_ok no_content \<and> rtype no_content = Basic
   \<and> on_fetch sw_location (\<lambda>u. Inr no_content) [] (get_request (site_url ''/ping'') [])
       = RespondWith
           \<lparr>settled = Inr (Some no_content), net_calls = [''https://netzscout.github.io/ping''],
            deferred_put = None, logged = []\<rparr>
   \<and> redirected moved_page
   \<and> on_fetch sw_location (\<lambda>u. Inr moved_page) [] (get_request (site_url ''/old'') [])
       = RespondWith
           \<lparr>settled = Inr (Some moved_page), net_calls = [''https://netzscout.github.io/old''],
            deferred_put = Some (DYNAMIC_CACHE, ''https://netzscout.github.io/old'', moved_page),
            logged = []\<rparr>
   \<and> caches_match
        (snd (complete_put
                (Some (DYNAMIC_CACHE, ''https://netzscout.github.io/old'', moved_page)) []))
        ''https://netzscout.github.io/old'' = Some moved_page
   \<and> response_ok varying_page \<and> rtype varying_page = Basic
   \<and> on_fetch sw_location (\<lambda>u. Inr varying_page) [] (get_request (site_url ''/feed'') [])
       = RespondWith
           \<lparr>settled = Inr (Some varying_page),
            net_calls = [''https://netzscout.github.io/feed''],
            deferred_put = Some (DYNAMIC_CACHE, ''https://netzscout.github.io/feed'',
                                 varying_page),
            logged = []\<rparr>
   \<and> caches_match
        (snd (complete_put
                (Some (DYNAMIC_CACHE, ''https://netzscout.github.io/feed'', varying_page)) []))
        ''https://netzscout.github.io/feed'' = None"
proof -
  have v: "vary_star varying_page" "\<not> vary_star moved_page"
    by (simp_all add: vary_star_def headers_get_def str_trim_def is_space_def
        varying_page_def moved_page_def)
  have f: "href (site_url ''/ping'') = ''https://netzscout.github.io/ping''"
    "href (site_url ''/old'') = ''https://netzscout.github.io/old''"
    "href (site_url ''/feed'') = ''https://netzscout.github.io/feed''"
    "startsWith ''https://netzscout.github.io/ping'' (origin sw_location)"
    "startsWith ''https://netzscout.github.io/old'' (origin sw_location)"
    "startsWith ''https://netzscout.github.io/feed'' (origin sw_location)"
    by (simp_all add: href_def origin_def site_url_def sw_location_def startsWith_def)
  have s: "status no_content = 204" "rtype no_content = Basic"
    "status moved_page = 200" "rtype moved_page = Basic" "redirected moved_page"
    "status varying_page = 200" "rtype varying_page = Basic"
    by (simp_all add: no_content_def moved_page_def varying_page_def)
  have opened: "caches_open DYNAMIC_CACHE [] = [(DYNAMIC_CACHE, [])]"
    by (simp add: caches_open_def caches_keys_def)
  show ?thesis
    by (simp add: on_fetch_def respond_def Let_def get_request_def f s v response_ok_def
        complete_put_store opened put_entry_def)
qed

text \<open>
  C9. A same-origin GET request that is in no cache and that the network answers with a
  response the handler caches (status 200, type \<open>basic\<close>): once the write the first
  interception started has completed, the same request is a cache hit. It is answered
  with the response stored in the dynamic cache, the one the first interception
  returned, and the network is not asked again, whatever it would answer.
\<close>

theorem second_request_hits_dynamic_cache:
  assumes "req_method req = ''GET''"
    and "origin (req_url req) = origin loc"
    and "caches_match st (href (req_url req)) = None"
    and "net (href (req_url req)) = Inr r"
    and "status r = 200" and "rtype r = Basic"
    and "complete_put (Some (DYNAMIC_CACHE, href (req_url req), r)) st = (Inr (), st')"
  shows "on_fetch loc net st req =
           RespondWith \<lparr>settled = Inr (Some r), net_calls = [href (req_url req)],
                        deferred_put = Some (DYNAMIC_CACHE, href (req_url req), r),
                        logged = []\<rparr>
         \<and> map_of (cache_of st' DYNAMIC_CACHE) (href (req_url req)) = Some r
         \<and> on_fetch loc net' st' req =
             RespondWith \<lparr>settled = Inr (Some r), net_calls = [], deferred_put = None,
                          logged = []\<rparr>"
proof -
  let ?key = "href (req_url req)"
  let ?open = "caches_open DYNAMIC_CACHE st"
  have pre: "startsWith ?key (origin loc)"
    using assms(2) by (rule same_origin_startsWith)
  have first: "on_fetch loc net st req =
      RespondWith \<lparr>settled = Inr (Some r), net_calls = [?key],
                   deferred_put = Some (DYNAMIC_CACHE, ?key, r), logged = []\<rparr>"
    using assms(1,3,4,5,6) pre by (simp add: on_fetch_def respond_def Let_def)
  have "fst (complete_put (Some (DYNAMIC_CACHE, ?key, r)) st) = Inr ()"
    by (simp add: assms(7))
  then have taken: "status r \<noteq> 206 \<and> \<not> vary_star r"
    by (simp add: dynamic_write_completes)
  have "st' = snd (complete_put (Some (DYNAMIC_CACHE, ?key, r)) st)"
    by (simp add: assms(7))
  with taken have store: "st' = put_entry DYNAMIC_CACHE ?key r ?open"
    by (simp add: complete_put_store)
  have miss: "caches_match ?open ?key = None"
    using assms(3) by (simp add: caches_match_open)
  have hit: "caches_match st' ?key = Some r"
    unfolding store using miss caches_keys_open by (rule caches_match_put)
  have stored: "map_of (cache_of st' DYNAMIC_CACHE) ?key = Some r"
    by (simp add: store cache_of_put [OF caches_keys_open])
  have second: "on_fetch loc net' st' req =
      RespondWith \<lparr>settled = Inr (Some r), net_calls = [], deferred_put = None, logged = []\<rparr>"
    using assms(1) pre hit by (simp add: on_fetch_def respond_def Let_def)
  show ?thesis
    using first stored second by simp
qed

theorem second_request_hits_dynamic_cache_witness:
  "on_fetch sw_location offline
      [(DYNAMIC_CACHE, [(''https://netzscout.github.io/about.html'',
                         page ''https://netzscout.github.io/about.html'')])]
      (get_request (site_url ''/about.html'') [])
     = RespondWith
         \<lparr>settled = Inr (Some (page ''https://netzscout.github.io/about.html'')),
          net_calls = [], deferred_put = None, logged = []\<rparr>"
proof -
  let ?req = "get_request (site_url ''/about.html'') []"
  let ?r = "page ''https://netzscout.github.io/about.html''"
  let ?st' = "[(DYNAMIC_CACHE, [(''https://netzscout.github.io/about.html'', ?r)])]"
  have u: "href (req_url ?req) = ''https://netzscout.github.io/about.html''"
    by (simp add: get_request_def site_url_def href_def origin_def)
  have m: "req_method ?req = ''GET''"
    by (simp add: get_request_def)
  have o: "origin (req_url ?req) = origin sw_location"
    by (simp add: get_request_def site_url_def sw_location_def origin_def)
  have c: "caches_match [] (href (req_url ?req)) = None"
    by simp
  have n: "online (href (req_url ?req)) = Inr ?r"
    by (simp add: u online_def)
  have s: "status ?r = 200" and t: "rtype ?r = Basic"
    by (simp_all add: page_def)
  have w: "complete_put (Some (DYNAMIC_CACHE, href (req_url ?req), ?r)) [] = (Inr (), ?st')"
    by (simp add: u complete_put_def cache_put_def put_entry_def caches_open_def
        caches_keys_def page_def vary_star_def headers_get_def)
  show ?thesis
    using second_request_hits_dynamic_cache
      [where net = online and net' = offline, OF m o c n s t w]
    by simp
qed

text \<open>
  The write completes unless \<open>cache.put\<close> refuses the response. When it does, nothing
  is stored and the same request goes to the network again.
\<close>

lemma second_request_after_refused_write:
  "complete_put (Some (DYNAMIC_CACHE, ''https://netzscout.github.io/feed'', varying_page)) []
     = (Inl BadResponse, [(DYNAMIC_CACHE, [])])
   \<and> on_fetch sw_location (\<lambda>u. Inr varying_page) [(DYNAMIC_CACHE, [])]
        (get_request (site_url ''/feed'') [])
       = RespondWith
           \<lparr>settled = Inr (Some varying_page),
            net_calls = [''https://netzscout.github.io/feed''],
            deferred_put = Some (DYNAMIC_CACHE, ''https://netzscout.github.io/feed'',
                                 varying_page),
            logged = []\<rparr>"
proof -
  have v: "vary_star varying_page"
    by (simp add: vary_star_def headers_get_def str_trim_def is_space_def varying_page_def)
  have s: "status varying_page = 200" "rtype varying_page = Basic"
    by (simp_all add: varying_page_def)
  have f: "href (site_url ''/feed'') = ''https://netzscout.github.io/feed''"
    "startsWith ''https://netzscout.github.io/feed'' (origin sw_location)"
    by (simp_all add: href_def origin_def site_url_def sw_location_def startsWith_def)
  show ?thesis
    by (simp add: complete_put_def cache_put_def caches_open_def caches_keys_def v s f
        on_fetch_def respond_def Let_def get_request_def)
qed

subsection \<open>fetch: offline fallback\<close>




text \<open>
  C10. For an intercepted GET request that is in no cache, fails on the network and has
  no accept header, the handler reaches no fallback branch and does not raise the
  failure of the fetch again: the promise rejects with the error of the property read
  from \<open>null\<close>.
\<close>

theorem missing_accept_header_raises:
  assumes "req_method req = ''GET''"
    and "startsWith (href (req_url req)) (origin loc)"
    and "caches_match st (href (req_url req)) = None"
    and "net (href (req_url req)) = Inl e"
    and "headers_get (req_headers req) ''accept'' = None"
  shows "on_fetch loc net st req =
           RespondWith
             \<lparr>settled = Inl NullProperty, net_calls = [href (req_url req)],
              deferred_put = None, logged = [e]\<rparr>"
  using assms by (simp add: on_fetch_def respond_def offline_fallback_def Let_def)

theorem missing_accept_header_raises_witness:
  "on_fetch sw_location offline [(STATIC_CACHE, [])]
      (get_request (site_url ''/api/items'') [(''user-agent'', ''curl'')])
     = RespondWith
         \<lparr>settled = Inl NullProperty, net_calls = [''https://netzscout.github.io/api/items''],
          deferred_put = None, logged = [NetworkError]\<rparr>"
proof -
  let ?req = "get_request (site_url ''/api/items'') [(''user-agent'', ''curl'')]"
  have u: "href (req_url ?req) = ''https://netzscout.github.io/api/items''"
    by (simp add: get_request_def site_url_def href_def origin_def)
  have m: "req_method ?req = ''GET''"
    by (simp add: get_request_def)
  have p: "startsWith (href (req_url ?req)) (origin sw_location)"
    by (simp add: u) (simp add: sw_location_def startsWith_def origin_def)
  have c: "caches_match [(STATIC_CACHE, [])] (href (req_url ?req)) = None"
    by simp
  have n: "offline (href (req_url ?req)) = Inl NetworkError"
    by (simp add: offline_def)
  have h: "headers_get (req_headers ?req) ''accept'' = None"
    by (simp add: get_request_def headers_get_def)
  show ?thesis
    using missing_accept_header_raises [where net = offline, OF m p c n h] by (simp add: u)
qed

subsection \<open>message\<close>

lemma cache_name_is_not_static_cache: "CACHE_NAME \<noteq> STATIC_CACHE"
  by (simp add: CACHE_NAME_def STATIC_CACHE_def)

lemma get_version_without_port:
  "msg_type ev = Some ''GET_VERSION'' \<Longrightarrow> msg_ports ev = [] \<Longrightarrow>
     on_message loc net st ev =
       \<lparr>msg_skipWaiting = False, msg_posted = [], msg_thrown = Some NullProperty,
        msg_waitUntil = None, msg_store = st\<rparr>"
  by (simp add: on_message_def Let_def)

text \<open>
  C3, as the worker does it. A message of type \<open>GET_VERSION\<close> that comes with a port is
  answered on the first port with \<open>{version: CACHE_NAME}\<close>, the constant
  \<open>'bastelglueck-v1'\<close>; nothing else happens. \<open>CACHE_NAME\<close> names no cache: the
  static cache is \<open>STATIC_CACHE\<close>, \<open>'bastelglueck-static-v1'\<close>.
\<close>

theorem get_version_replies_cache_name:
  assumes "msg_type ev = Some ''GET_VERSION''" and "msg_ports ev = p # ps"
  shows "on_message loc net st ev =
           \<lparr>msg_skipWaiting = False, msg_posted = [(p, Version CACHE_NAME)],
            msg_thrown = None, msg_waitUntil = None, msg_store = st\<rparr>"
  using assms by (simp add: on_message_def Let_def)

theorem get_version_replies_cache_name_witness:
  "on_message sw_location online [] \<lparr>msg_type = Some ''GET_VERSION'', msg_ports = [3, 4]\<rparr> =
     \<lparr>msg_skipWaiting = False, msg_posted = [(3, Version ''bastelglueck-v1'')],
      msg_thrown = None, msg_waitUntil = None, msg_store = []\<rparr>"
  using get_version_replies_cache_name
    [where ev = "\<lparr>msg_type = Some ''GET_VERSION'', msg_ports = [3, 4]\<rparr>" and p = 3
       and ps = "[4]" and loc = sw_location and net = online and st = "[]"]
  by (simp add: CACHE_NAME_def)

text \<open>
  C3 as stated has the identifier of the static cache in the reply. The reply carries
  another string.
\<close>

theorem get_version_not_static_identifier:
  "msg_posted (on_message sw_location offline []
      \<lparr>msg_type = Some ''GET_VERSION'', msg_ports = [7]\<rparr>) \<noteq> [(7, Version STATIC_CACHE)]"
  by (simp add: on_message_def Let_def CACHE_NAME_def STATIC_CACHE_def)

lemma on_message_cache_update:
  "msg_type ev = Some ''CACHE_UPDATE'' \<Longrightarrow>
     on_message loc net st ev =
       (let a = cache_addAll net STATIC_CACHE (map (resolve loc) STATIC_FILES)
                  (caches_open STATIC_CACHE (caches_delete STATIC_CACHE st))
        in \<lparr>msg_skipWaiting = False, msg_posted = [], msg_thrown = None,
            msg_waitUntil = Some (fst a), msg_store = snd a\<rparr>)"
  by (simp add: on_message_def Let_def split: prod.splits)

lemma cache_of_open_after_delete:
  "cache_of (caches_open name (caches_delete name st)) name = []"
  by (simp add: cache_of_def open_after_delete)

text \<open>
  C8, as the worker does it. On a message of type \<open>CACHE_UPDATE\<close> the static cache is
  deleted and recreated, so what it held before is gone. When \<open>cache.addAll\<close> takes
  every path of the manifest (each fetched, with an \<open>ok\<close> status other than 206 and
  no \<open>*\<close> in \<open>Vary\<close>), the promise given to \<open>waitUntil\<close> is fulfilled and the
  static cache holds exactly the manifest's URLs, each with the response the network
  gave; otherwise the promise is rejected and the static cache is left empty.
\<close>

theorem cache_update_repopulates:
  assumes "msg_type ev = Some ''CACHE_UPDATE''"
  shows "if \<forall>p \<in> set STATIC_FILES. \<exists>r. net (resolve loc p) = Inr r \<and> addable r
         then msg_waitUntil (on_message loc net st ev) = Some (Inr ())
              \<and> (\<forall>k. map_of (cache_of (msg_store (on_message loc net st ev)) STATIC_CACHE) k =
                       (if k \<in> resolve loc ` set STATIC_FILES
                        then (case net k of Inr r \<Rightarrow> Some r | Inl e \<Rightarrow> None) else None))
         else (\<exists>e. msg_waitUntil (on_message loc net st ev) = Some (Inl e))
              \<and> cache_of (msg_store (on_message loc net st ev)) STATIC_CACHE = []"
proof -
  let ?us = "map (resolve loc) STATIC_FILES"
  let ?st2 = "caches_open STATIC_CACHE (caches_delete STATIC_CACHE st)"
  let ?a = "cache_addAll net STATIC_CACHE ?us ?st2"
  have res: "on_message loc net st ev =
      \<lparr>msg_skipWaiting = False, msg_posted = [], msg_thrown = None,
       msg_waitUntil = Some (fst ?a), msg_store = snd ?a\<rparr>"
    using on_message_cache_update [OF assms] by (simp add: Let_def)
  have empty: "cache_of ?st2 STATIC_CACHE = []"
    by (rule cache_of_open_after_delete)
  show ?thesis
  proof (cases "\<forall>p \<in> set STATIC_FILES. \<exists>r. net (resolve loc p) = Inr r \<and> addable r")
    case True
    then have ok: "fst ?a = Inr ()"
      by (simp add: addAll_manifest)
    have "map_of (cache_of (snd ?a) STATIC_CACHE) k =
            (if k \<in> resolve loc ` set STATIC_FILES
             then (case net k of Inr r \<Rightarrow> Some r | Inl e \<Rightarrow> None) else None)" for k
      using addAll_success [OF ok caches_keys_open, of k] by (simp add: empty)
    with True ok show ?thesis
      by (simp add: res)
  next
    case False
    then have "fst ?a \<noteq> Inr ()"
      by (simp add: addAll_manifest)
    then obtain e where e: "fst ?a = Inl e"
      by (cases "fst ?a") auto
    from addAll_failure [OF e] have "snd ?a = ?st2" .
    with False e empty show ?thesis
      by (simp add: res)
  qed
qed

theorem cache_update_repopulates_witness:
  "map_of (cache_of (msg_store (on_message sw_location online
        [(STATIC_CACHE, [(''https://netzscout.github.io/old.css'', page ''old'')])]
        \<lparr>msg_type = Some ''CACHE_UPDATE'', msg_ports = []\<rparr>)) STATIC_CACHE)
      ''https://netzscout.github.io/old.css'' = None
   \<and> map_of (cache_of (msg_store (on_message sw_location online
        [(STATIC_CACHE, [(''https://netzscout.github.io/old.css'', page ''old'')])]
        \<lparr>msg_type = Some ''CACHE_UPDATE'', msg_ports = []\<rparr>)) STATIC_CACHE)
      ''https://netzscout.github.io/index.html''
       = Some (page ''https://netzscout.github.io/index.html'')"
proof -
  let ?st = "[(STATIC_CACHE, [(''https://netzscout.github.io/old.css'', page ''old'')])]"
  let ?ev = "\<lparr>msg_type = Some ''CACHE_UPDATE'', msg_ports = []\<rparr>"
  have t: "msg_type ?ev = Some ''CACHE_UPDATE''"
    by simp
  have net: "\<forall>p \<in> set STATIC_FILES. \<exists>r. online (resolve sw_location p) = Inr r \<and> addable r"
    by (simp add: online_def page_def addable_def response_ok_def vary_star_def
        headers_get_def)
  have old: "''https://netzscout.github.io/old.css'' \<notin> resolve sw_location ` set STATIC_FILES"
    by (simp add: STATIC_FILES_def resolve_def origin_def sw_location_def)
  have idx: "''https://netzscout.github.io/index.html'' \<in> resolve sw_location ` set STATIC_FILES"
    by (simp add: STATIC_FILES_def resolve_def origin_def sw_location_def)
  from cache_update_repopulates [where net = online and loc = sw_location and st = ?st, OF t] net
  have all: "\<forall>k. map_of (cache_of (msg_store (on_message sw_location online ?st ?ev)) STATIC_CACHE) k =
              (if k \<in> resolve sw_location ` set STATIC_FILES
               then (case online k of Inr r \<Rightarrow> Some r | Inl e \<Rightarrow> None) else None)"
    by simp
  show ?thesis
    using all old idx by (simp add: online_def)
qed

text \<open>
  C8 as stated has the manifest in the static cache after every such message. With no
  network the update discards the home document that was cached and stores nothing.
\<close>

theorem cache_update_offline_leaves_empty:
  "msg_waitUntil (on_message sw_location offline
        [(STATIC_CACHE, [(''https://netzscout.github.io/index.html'', page ''home'')])]
        \<lparr>msg_type = Some ''CACHE_UPDATE'', msg_ports = []\<rparr>) = Some (Inl NetworkError)
   \<and> msg_store (on_message sw_location offline
        [(STATIC_CACHE, [(''https://netzscout.github.io/index.html'', page ''home'')])]
        \<lparr>msg_type = Some ''CACHE_UPDATE'', msg_ports = []\<rparr>) = [(STATIC_CACHE, [])]"
  by (simp add: on_message_def Let_def cache_addAll_def offline_def STATIC_FILES_def
      caches_delete_def caches_open_def caches_keys_def AList.delete_eq)

text \<open>
  The same happens when the network answers and \<open>cache.addAll\<close> refuses a response.
\<close>

lemma cache_update_refused_response:
  "msg_waitUntil (on_message sw_location (\<lambda>u. Inr varying_page)
        [(STATIC_CACHE, [(''https://netzscout.github.io/index.html'', page ''home'')])]
        \<lparr>msg_type = Some ''CACHE_UPDATE'', msg_ports = []\<rparr>) = Some (Inl BadResponse)
   \<and> msg_store (on_message sw_location (\<lambda>u. Inr varying_page)
        [(STATIC_CACHE, [(''https://netzscout.github.io/index.html'', page ''home'')])]
        \<lparr>msg_type = Some ''CACHE_UPDATE'', msg_ports = []\<rparr>) = [(STATIC_CACHE, [])]"
  using addable_examples
  by (simp add: on_message_def Let_def cache_addAll_def STATIC_FILES_def
      caches_delete_def caches_open_def caches_keys_def AList.delete_eq)

end
